theory Spec2Isabelle
  imports Main "HOL-Library.Sublist"
begin

section \<open>The system interface of the OS agent (system/system.go)\<close>

text \<open>
  The package exports a D-Bus object with the methods \<open>WipeDevice\<close>,
  \<open>ScheduleWipeDevice\<close>, \<open>AddSSHAuthKey\<close>, \<open>ClearSSHAuthKeys\<close> and the writable
  property \<open>LoadUSBIP\<close>. Everything the handlers do is an effect on the outside world:
  calls to the UDisks2 helper, file operations, process execution. The embedding makes
  each effect explicit: the collaborators are parameters, the file system and the
  package variable \<open>loadUSBIP\<close> are a state record that is passed along, and every
  error return of the source is a value. Log output (\<open>logging.Info.Printf\<close>,
  \<open>fmt.Println\<close>) changes no result and is left out, and so is \<open>AddSSHAuthKey\<close>,
  which no property below is about.
\<close>

subsection \<open>Constants\<close>

definition objectPath :: string where
  "objectPath = ''/io/hass/os/System''"

definition ifaceName :: string where
  "ifaceName = ''io.hass.os.System''"

definition labelDataFileSystem :: string where
  "labelDataFileSystem = ''hassos-data''"

definition labelOverlayFileSystem :: string where
  "labelOverlayFileSystem = ''hassos-overlay''"

definition kernelCommandLine :: string where
  "kernelCommandLine = ''/mnt/boot/cmdline.txt''"

definition tmpKernelCommandLine :: string where
  "tmpKernelCommandLine = ''/mnt/boot/.tmp.cmdline.txt''"

definition sshAuthKeyFileName :: string where
  "sshAuthKeyFileName = ''/root/.ssh/authorized_keys''"

definition moduleLoadCommand :: string where
  "moduleLoadCommand = ''/sbin/modprobe''"

subsection \<open>Go errors\<close>

text \<open>
  A Go \<open>error\<close> is a value with a method \<open>Error() string\<close>. The handlers meet five
  kinds: plain messages (\<open>errors.New\<close>, \<open>fmt.Errorf\<close>, whatever a collaborator
  returns), \<open>*os.PathError\<close>, \<open>*os.LinkError\<close> and \<open>*os.SyscallError\<close> from
  the operating system, and \<open>*dbus.Error\<close>, which is what \<open>dbus.MakeFailedError\<close>
  builds. The body of a \<open>dbus.Error\<close> is a list of values; the handlers only ever put
  one string there.
\<close>

datatype errno = ENOENT | EACCES | EPERM | EIO | ENOSPC | EROFS | EMFILE | EISDIR

datatype error =
    ErrorString string
  | PathError string string errno
  | LinkError string string string errno
  | SyscallError string errno
  | DBusError string "string list"

fun errno_Error :: "errno \<Rightarrow> string" where
  "errno_Error ENOENT = ''no such file or directory''"
| "errno_Error EACCES = ''permission denied''"
| "errno_Error EPERM = ''operation not permitted''"
| "errno_Error EIO = ''input/output error''"
| "errno_Error ENOSPC = ''no space left on device''"
| "errno_Error EROFS = ''read-only file system''"
| "errno_Error EMFILE = ''too many open files''"
| "errno_Error EISDIR = ''is a directory''"

text \<open>
  The method \<open>Error()\<close>. For a \<open>dbus.Error\<close> it is the first element of the body
  when there is one, and the error name otherwise.
\<close>

fun Error :: "error \<Rightarrow> string" where
  "Error (ErrorString s) = s"
| "Error (PathError op path e) = op @ '' '' @ path @ '': '' @ errno_Error e"
| "Error (LinkError op old new e) = op @ '' '' @ old @ '' '' @ new @ '': '' @ errno_Error e"
| "Error (SyscallError call e) = call @ '': '' @ errno_Error e"
| "Error (DBusError name body) = (case body of [] \<Rightarrow> name | s # _ \<Rightarrow> s)"

text \<open>\<open>os.IsNotExist\<close> looks through the path and link wrappers for \<open>ENOENT\<close>.\<close>

fun os_IsNotExist :: "error \<Rightarrow> bool" where
  "os_IsNotExist (PathError _ _ e) = (e = ENOENT)"
| "os_IsNotExist (LinkError _ _ _ e) = (e = ENOENT)"
| "os_IsNotExist (SyscallError _ e) = (e = ENOENT)"
| "os_IsNotExist _ = False"

text \<open>
  \<open>dbus.MakeFailedError(err)\<close> is the error named
  \<open>org.freedesktop.DBus.Error.Failed\<close> whose body is \<open>[err.Error()]\<close>.
\<close>

definition MakeFailedError :: "error \<Rightarrow> error" where
  "MakeFailedError err = DBusError ''org.freedesktop.DBus.Error.Failed'' [Error err]"

subsection \<open>The UDisks2 helper\<close>

text \<open>
  The package \<open>udisks2\<close> is a collaborator: it finds a block device by its file system
  label, reports the mount points of a file system, and formats a partition. The
  handlers see only the three results, so the helper is a parameter holding the answer
  to each call. A bus object is identified by its object path. Every call that a
  handler makes is recorded, in order, so that what was issued can be stated.
\<close>

type_synonym bus_object = string

record UDisks2Helper =
  GetBusObjectFromLabel :: "string \<Rightarrow> error + bus_object"
  GetMountPointsString :: "bus_object \<Rightarrow> error + string list"
  FormatPartition :: "bus_object \<Rightarrow> string \<Rightarrow> string \<Rightarrow> error option"

datatype udisks2_call =
    CallGetBusObjectFromLabel string
  | CallGetMountPointsString bus_object
  | CallFormatPartition bus_object string string

fun is_format :: "udisks2_call \<Rightarrow> bool" where
  "is_format (CallFormatPartition _ _ _) = True"
| "is_format _ = False"

definition format_calls :: "udisks2_call list \<Rightarrow> udisks2_call list" where
  "format_calls cs = filter is_format cs"

text \<open>
  \<open>fmt\<close> prints a \<open>[]string\<close> under the verb \<open>%s\<close> as the elements separated by one
  space, in square brackets.
\<close>

fun join_space :: "string list \<Rightarrow> string" where
  "join_space [] = []"
| "join_space [s] = s"
| "join_space (s # t # ss) = s @ '' '' @ join_space (t # ss)"

definition fmt_strings :: "string list \<Rightarrow> string" where
  "fmt_strings ss = ''['' @ join_space ss @ '']''"

definition mounted_message :: "string \<Rightarrow> string list \<Rightarrow> string" where
  "mounted_message label dataMountPoints =
     ''Device with label '' @ [CHR 0x22] @ label @ [CHR 0x22] @ '' is mounted at '' @
     fmt_strings dataMountPoints @ '', aborting.''"

text \<open>
  \<open>getAndCheckBusObjectFromLabel\<close>: look the label up, ask for the mount points, and
  refuse a device that is mounted anywhere. The second component is the list of helper
  calls made.
\<close>

definition getAndCheckBusObjectFromLabel ::
    "UDisks2Helper \<Rightarrow> string \<Rightarrow> (error + bus_object) \<times> udisks2_call list" where
  "getAndCheckBusObjectFromLabel udisks2helper label =
     (case GetBusObjectFromLabel udisks2helper label of
        Inl err \<Rightarrow> (Inl (MakeFailedError err), [CallGetBusObjectFromLabel label])
      | Inr dataBusObject \<Rightarrow>
          (case GetMountPointsString udisks2helper dataBusObject of
             Inl err \<Rightarrow>
               (Inl (MakeFailedError err),
                [CallGetBusObjectFromLabel label, CallGetMountPointsString dataBusObject])
           | Inr dataMountPoints \<Rightarrow>
               (if length dataMountPoints > 0
                then (Inl (MakeFailedError (ErrorString (mounted_message label dataMountPoints))),
                      [CallGetBusObjectFromLabel label, CallGetMountPointsString dataBusObject])
                else (Inr dataBusObject,
                      [CallGetBusObjectFromLabel label, CallGetMountPointsString dataBusObject]))))"

text \<open>
  \<open>WipeDevice\<close>: check both volumes, then format both, stopping at the first error.
  The result is the pair the method returns (\<open>nil\<close> is \<open>None\<close>) and the helper calls
  made, in order.
\<close>

definition WipeDevice :: "UDisks2Helper \<Rightarrow> (bool \<times> error option) \<times> udisks2_call list" where
  "WipeDevice udisks2helper =
     (case getAndCheckBusObjectFromLabel udisks2helper labelDataFileSystem of
        (Inl err, cs1) \<Rightarrow> ((False, Some (MakeFailedError err)), cs1)
      | (Inr dataBusObject, cs1) \<Rightarrow>
     (case getAndCheckBusObjectFromLabel udisks2helper labelOverlayFileSystem of
        (Inl err, cs2) \<Rightarrow> ((False, Some (MakeFailedError err)), cs1 @ cs2)
      | (Inr overlayBusObject, cs2) \<Rightarrow>
     (case FormatPartition udisks2helper dataBusObject ''ext4'' labelDataFileSystem of
        Some err \<Rightarrow>
          ((False, Some (MakeFailedError err)),
           cs1 @ cs2 @ [CallFormatPartition dataBusObject ''ext4'' labelDataFileSystem])
      | None \<Rightarrow>
     (case FormatPartition udisks2helper overlayBusObject ''ext4'' labelOverlayFileSystem of
        Some err \<Rightarrow>
          ((False, Some (MakeFailedError err)),
           cs1 @ cs2 @ [CallFormatPartition dataBusObject ''ext4'' labelDataFileSystem,
                        CallFormatPartition overlayBusObject ''ext4'' labelOverlayFileSystem])
      | None \<Rightarrow>
          ((True, None),
           cs1 @ cs2 @ [CallFormatPartition dataBusObject ''ext4'' labelDataFileSystem,
                        CallFormatPartition overlayBusObject ''ext4'' labelOverlayFileSystem])))))"

subsection \<open>The operating system\<close>

text \<open>
  The world the other handlers act on: the regular files by path, the processes that
  were started (each by its argument vector), the pipes left open, the D-Bus interfaces
  exported so far, and the package variable \<open>loadUSBIP\<close>. The field \<open>observed\<close> is a
  ghost: every file system a concurrent reader could have seen, oldest first, one entry
  for each change that a file operation makes.
\<close>

type_synonym file_system = "string \<rightharpoonup> string"

record world =
  files :: file_system
  observed :: "file_system list"
  started :: "string list list"
  open_pipes :: nat
  exported :: "(string \<times> string) list"
  LoadUSBIP_Value :: "bool option"
  loadUSBIP :: bool

text \<open>
  What the code cannot decide is given by the environment: the system call that fails and its error
  number, how far a write gets in each step, the programs installed (each maps its
  argument vector to what \<open>Output\<close> collects: the standard output, or the error of a
  run that fails), and the exports the bus refuses.
\<close>

datatype syscall =
    SysOpen string
  | SysRead string
  | SysWrite string
  | SysClose string
  | SysRename string string
  | SysUnlink string
  | SysPipe
  | SysExec string

record os_env =
  fault :: "syscall \<Rightarrow> errno option"
  write_progress :: "nat list"
  programs :: "string \<rightharpoonup> (string list \<Rightarrow> error + string)"
  Export_fault :: "string \<Rightarrow> string \<Rightarrow> error option"

definition put_files :: "file_system \<Rightarrow> world \<Rightarrow> world" where
  "put_files fs w = w\<lparr>files := fs, observed := observed w @ [fs]\<rparr>"

text \<open>
  \<open>ioutil.ReadFile\<close>: open, read to the end, close. A missing file is \<open>ENOENT\<close> at
  the open.
\<close>

definition ioutil_ReadFile :: "os_env \<Rightarrow> string \<Rightarrow> world \<Rightarrow> error + string" where
  "ioutil_ReadFile env name w =
     (case fault env (SysOpen name) of
        Some e \<Rightarrow> Inl (PathError ''open'' name e)
      | None \<Rightarrow>
          (case files w name of
             None \<Rightarrow> Inl (PathError ''open'' name ENOENT)
           | Some data \<Rightarrow>
               (case fault env (SysRead name) of
                  Some e \<Rightarrow> Inl (PathError ''read'' name e)
                | None \<Rightarrow> Inr data)))"

text \<open>
  \<open>ioutil.WriteFile\<close>: open with \<open>O_WRONLY|O_CREATE|O_TRUNC\<close>, write, close. The open
  leaves the file empty; the write reaches it in steps, each a longer prefix of the
  data; a write that fails leaves the prefix it got to.
\<close>

fun write_steps :: "string \<Rightarrow> string \<Rightarrow> nat list \<Rightarrow> world \<Rightarrow> world" where
  "write_steps name data [] w = w"
| "write_steps name data (n # ns) w =
     write_steps name data ns (put_files ((files w)(name \<mapsto> take n data)) w)"

definition ioutil_WriteFile ::
    "os_env \<Rightarrow> string \<Rightarrow> string \<Rightarrow> world \<Rightarrow> error option \<times> world" where
  "ioutil_WriteFile env name data w =
     (case fault env (SysOpen name) of
        Some e \<Rightarrow> (Some (PathError ''open'' name e), w)
      | None \<Rightarrow>
          (let w1 = put_files ((files w)(name \<mapsto> [])) w;
               w2 = write_steps name data (write_progress env) w1
           in case fault env (SysWrite name) of
                Some e \<Rightarrow> (Some (PathError ''write'' name e), w2)
              | None \<Rightarrow>
                  (let w3 = put_files ((files w2)(name \<mapsto> data)) w2
                   in case fault env (SysClose name) of
                        Some e \<Rightarrow> (Some (PathError ''close'' name e), w3)
                      | None \<Rightarrow> (None, w3))))"

text \<open>
  \<open>os.Rename\<close>: one step of the file system. The new name gets the old file, the old
  name is gone.
\<close>

definition os_Rename :: "os_env \<Rightarrow> string \<Rightarrow> string \<Rightarrow> world \<Rightarrow> error option \<times> world" where
  "os_Rename env oldpath newpath w =
     (case fault env (SysRename oldpath newpath) of
        Some e \<Rightarrow> (Some (LinkError ''rename'' oldpath newpath e), w)
      | None \<Rightarrow>
          (case files w oldpath of
             None \<Rightarrow> (Some (LinkError ''rename'' oldpath newpath ENOENT), w)
           | Some data \<Rightarrow> (None, put_files ((files w)(oldpath := None, newpath \<mapsto> data)) w)))"

text \<open>\<open>os.Remove\<close>: unlink the file. A missing file is \<open>ENOENT\<close>.\<close>

definition os_Remove :: "os_env \<Rightarrow> string \<Rightarrow> world \<Rightarrow> error option \<times> world" where
  "os_Remove env name w =
     (case fault env (SysUnlink name) of
        Some e \<Rightarrow> (Some (PathError ''remove'' name e), w)
      | None \<Rightarrow>
          (case files w name of
             None \<Rightarrow> (Some (PathError ''remove'' name ENOENT), w)
           | Some _ \<Rightarrow> (None, put_files ((files w)(name := None)) w)))"

subsection \<open>strings.TrimSpace and strings.SplitN\<close>

text \<open>
  \<open>strings.TrimSpace\<close> removes all leading and all trailing white space, as Unicode
  defines it (\<open>unicode.IsSpace\<close>). A Go string is a sequence of bytes holding UTF-8, so
  a white-space code point is one of the byte sequences below: the six ASCII ones, then
  U+0085, U+00A0, U+1680, U+2000 to U+200A, U+2028, U+2029, U+202F, U+205F and U+3000.
\<close>

definition space_runes :: "string list" where
  "space_runes =
     [[CHR 0x09], [CHR 0x0A], [CHR 0x0B], [CHR 0x0C], [CHR 0x0D], [CHR 0x20],
      [CHR 0xC2, CHR 0x85], [CHR 0xC2, CHR 0xA0],
      [CHR 0xE1, CHR 0x9A, CHR 0x80],
      [CHR 0xE2, CHR 0x80, CHR 0x80], [CHR 0xE2, CHR 0x80, CHR 0x81],
      [CHR 0xE2, CHR 0x80, CHR 0x82], [CHR 0xE2, CHR 0x80, CHR 0x83],
      [CHR 0xE2, CHR 0x80, CHR 0x84], [CHR 0xE2, CHR 0x80, CHR 0x85],
      [CHR 0xE2, CHR 0x80, CHR 0x86], [CHR 0xE2, CHR 0x80, CHR 0x87],
      [CHR 0xE2, CHR 0x80, CHR 0x88], [CHR 0xE2, CHR 0x80, CHR 0x89],
      [CHR 0xE2, CHR 0x80, CHR 0x8A],
      [CHR 0xE2, CHR 0x80, CHR 0xA8], [CHR 0xE2, CHR 0x80, CHR 0xA9],
      [CHR 0xE2, CHR 0x80, CHR 0xAF],
      [CHR 0xE2, CHR 0x81, CHR 0x9F],
      [CHR 0xE3, CHR 0x80, CHR 0x80]]"

text \<open>
  Trimming on the left: while the string starts with one of the sequences \<open>rs\<close>, drop
  it. No sequence is empty, so the first byte \<open>c\<close> is always part of what is dropped.
\<close>

fun TrimLeft_runes :: "string list \<Rightarrow> string \<Rightarrow> string" where
  "TrimLeft_runes rs [] = []"
| "TrimLeft_runes rs (c # cs) =
     (case find (\<lambda>r. prefix r (c # cs)) rs of
        None \<Rightarrow> c # cs
      | Some r \<Rightarrow> TrimLeft_runes rs (drop (length r - 1) cs))"

text \<open>Trimming on the right is trimming the reversed string on the left.\<close>

definition TrimRight_runes :: "string list \<Rightarrow> string \<Rightarrow> string" where
  "TrimRight_runes rs s = rev (TrimLeft_runes (map rev rs) (rev s))"

definition strings_TrimSpace :: "string \<Rightarrow> string" where
  "strings_TrimSpace s = TrimRight_runes space_runes (TrimLeft_runes space_runes s)"

text \<open>
  \<open>strings.SplitN(s, sep, 2)\<close> for a separator of one byte: the text before the first
  separator and the text after it, or \<open>s\<close> alone when it holds no separator. The result
  is never empty.
\<close>

definition strings_SplitN_2 :: "string \<Rightarrow> char \<Rightarrow> string list" where
  "strings_SplitN_2 s sep =
     (if sep \<in> set s
      then [takeWhile (\<lambda>c. c \<noteq> sep) s, tl (dropWhile (\<lambda>c. c \<noteq> sep) s)]
      else [s])"

subsection \<open>The handlers on files\<close>

text \<open>
  \<open>ScheduleWipeDevice\<close>: read the kernel command line, trim it, append the wipe option,
  write the result to the temporary file and rename that over the command line.
\<close>

definition ScheduleWipeDevice :: "os_env \<Rightarrow> world \<Rightarrow> (bool \<times> error option) \<times> world" where
  "ScheduleWipeDevice env w =
     (case ioutil_ReadFile env kernelCommandLine w of
        Inl err \<Rightarrow> ((False, Some (MakeFailedError err)), w)
      | Inr data \<Rightarrow>
          (let datastr = strings_TrimSpace data @ '' haos.wipe=1''
           in case ioutil_WriteFile env tmpKernelCommandLine datastr w of
                (Some err, w1) \<Rightarrow> ((False, Some (MakeFailedError err)), w1)
              | (None, w1) \<Rightarrow>
                  (case os_Rename env tmpKernelCommandLine kernelCommandLine w1 of
                     (Some err, w2) \<Rightarrow> ((False, Some (MakeFailedError err)), w2)
                   | (None, w2) \<Rightarrow> ((True, None), w2))))"

text \<open>
  \<open>ClearSSHAuthKeys\<close>: remove the file; the error is returned when \<open>os.Remove\<close> failed
  and \<open>os.IsNotExist\<close> holds of its error, and \<open>nil\<close> is returned otherwise.
\<close>

definition ClearSSHAuthKeys :: "os_env \<Rightarrow> world \<Rightarrow> error option \<times> world" where
  "ClearSSHAuthKeys env w =
     (case os_Remove env sshAuthKeyFileName w of
        (Some err, w1) \<Rightarrow>
          (if os_IsNotExist err then (Some (MakeFailedError err), w1) else (None, w1))
      | (None, w1) \<Rightarrow> (None, w1))"

subsection \<open>The kernel driver\<close>

text \<open>
  \<open>exec.Command(name, arg...)\<close> builds a command; it starts nothing. Both names the
  package uses contain a path separator, so no lookup in \<open>PATH\<close> takes place and the
  path is the name. \<open>Stdin\<close> and \<open>Process\<close> say whether the standard input is set
  and whether the process was started.
\<close>

record Cmd =
  Path :: string
  Args :: "string list"
  Stdin :: bool
  Process :: bool

definition exec_Command :: "string \<Rightarrow> string list \<Rightarrow> Cmd" where
  "exec_Command name arg = \<lparr>Path = name, Args = name # arg, Stdin = False, Process = False\<rparr>"

text \<open>
  \<open>Output\<close> starts the program at the path, waits for it and returns its standard
  output. When nothing is installed at the path the start fails with \<open>ENOENT\<close>.
\<close>

definition Cmd_Output :: "os_env \<Rightarrow> Cmd \<Rightarrow> world \<Rightarrow> (error + string) \<times> world" where
  "Cmd_Output env c w =
     (case fault env (SysExec (Path c)) of
        Some e \<Rightarrow> (Inl (PathError ''fork/exec'' (Path c) e), w)
      | None \<Rightarrow>
          (case programs env (Path c) of
             None \<Rightarrow> (Inl (PathError ''fork/exec'' (Path c) ENOENT), w)
           | Some run \<Rightarrow> (run (Args c), w\<lparr>started := started w @ [Args c]\<rparr>)))"

text \<open>
  \<open>StdinPipe\<close> opens a pipe and makes its reading end the standard input of the
  command. It starts nothing either.
\<close>

definition Cmd_StdinPipe :: "os_env \<Rightarrow> Cmd \<Rightarrow> world \<Rightarrow> error option \<times> Cmd \<times> world" where
  "Cmd_StdinPipe env c w =
     (if Stdin c then (Some (ErrorString ''exec: Stdin already set''), c, w)
      else if Process c then (Some (ErrorString ''exec: StdinPipe after process started''), c, w)
      else (case fault env SysPipe of
              Some e \<Rightarrow> (Some (SyscallError ''pipe2'' e), c, w)
            | None \<Rightarrow> (None, c\<lparr>Stdin := True\<rparr>, w\<lparr>open_pipes := open_pipes w + 1\<rparr>)))"

text \<open>
  \<open>getDriverStatus\<close>: the whole shell pipeline is the name of the program; there are
  no arguments and no shell. The status is whether the first word of the output is the
  module name.
\<close>

definition getDriverStatus :: "os_env \<Rightarrow> world \<Rightarrow> bool \<times> world" where
  "getDriverStatus env w =
     (let cmd = ''cat /proc/modules | grep vhci-hcd''
      in case Cmd_Output env (exec_Command cmd []) w of
           (Inl err, w1) \<Rightarrow> (False, w1)
         | (Inr out, w1) \<Rightarrow> (strings_SplitN_2 out (CHR '' '') ! 0 = ''vhci-hcd'', w1))"

text \<open>
  A call either returns or panics. \<open>dbus.MakeFailedError\<close> calls \<open>err.Error()\<close>, which
  panics when \<open>err\<close> is the nil interface.
\<close>

datatype 'a outcome = Returns 'a | Panics

definition MakeFailedError_of :: "error option \<Rightarrow> error outcome" where
  "MakeFailedError_of err =
     (case err of None \<Rightarrow> Panics | Some e \<Rightarrow> Returns (MakeFailedError e))"

text \<open>
  \<open>LoadKernelDriver\<close> is the callback of the property \<open>LoadUSBIP\<close>; the bus hands it
  values of the type of the property only, so \<open>c.Value\<close> is a boolean. It stores the
  value in \<open>loadUSBIP\<close>, builds the \<open>modprobe\<close> command and opens a pipe to its
  standard input. The variable \<open>err\<close> is declared and never assigned: it is \<open>nil\<close> where
  it is passed to \<open>dbus.MakeFailedError\<close>.
\<close>

definition LoadKernelDriver :: "os_env \<Rightarrow> bool \<Rightarrow> world \<Rightarrow> error option outcome \<times> world" where
  "LoadKernelDriver env Value w =
     (let w1 = w\<lparr>loadUSBIP := Value\<rparr>;
          err = None;
          cmd = exec_Command moduleLoadCommand [];
          cmd1 = (if Value then cmd\<lparr>Args := Args cmd @ [''vhci-hcd'']\<rparr>
                  else cmd\<lparr>Args := Args cmd @ [''--remove'', ''vhci-hcd'']\<rparr>)
      in case Cmd_StdinPipe env cmd1 w1 of
           (Some cerror, cmd2, w2) \<Rightarrow>
             (case MakeFailedError_of err of
                Panics \<Rightarrow> (Panics, w2)
              | Returns e \<Rightarrow> (Returns (Some e), w2))
         | (None, cmd2, w2) \<Rightarrow> (Returns None, w2))"

text \<open>
  \<open>InitializeDBus\<close>: set \<open>loadUSBIP\<close> from \<open>getDriverStatus\<close>, export the property
  with that value, the object and the introspection data. An export that fails ends in
  \<open>logging.Critical.Panic\<close>.
\<close>

definition InitializeDBus :: "os_env \<Rightarrow> world \<Rightarrow> unit outcome \<times> world" where
  "InitializeDBus env w =
     (case getDriverStatus env w of (status, w1) \<Rightarrow>
      let w2 = w1\<lparr>loadUSBIP := status\<rparr>
      in case Export_fault env objectPath ''org.freedesktop.DBus.Properties'' of
           Some err \<Rightarrow> (Panics, w2)
         | None \<Rightarrow>
      let w3 = w2\<lparr>LoadUSBIP_Value := Some (loadUSBIP w2),
                  exported := exported w2 @ [(objectPath, ''org.freedesktop.DBus.Properties'')]\<rparr>
      in case Export_fault env objectPath ifaceName of
           Some err \<Rightarrow> (Panics, w3)
         | None \<Rightarrow>
      let w4 = w3\<lparr>exported := exported w3 @ [(objectPath, ifaceName)]\<rparr>
      in case Export_fault env objectPath ''org.freedesktop.DBus.Introspectable'' of
           Some err \<Rightarrow> (Panics, w4)
         | None \<Rightarrow>
             (Returns (),
              w4\<lparr>exported := exported w4 @ [(objectPath, ''org.freedesktop.DBus.Introspectable'')]\<rparr>))"

subsection \<open>Notions used in the statements\<close>

text \<open>
  The directory of a path: what stands before its last slash (\<open>filepath.Dir\<close> on a
  clean path with a directory).
\<close>

definition path_Dir :: "string \<Rightarrow> string" where
  "path_Dir p = rev (tl (dropWhile (\<lambda>c. c \<noteq> CHR ''/'') (rev p)))"

text \<open>
  In the file system \<open>fs\<close> the kernel command line has the content it has in the world
  \<open>w\<close>, or that content trimmed and followed by the wipe option, in full.
\<close>

definition old_or_new :: "world \<Rightarrow> file_system \<Rightarrow> bool" where
  "old_or_new w fs \<longleftrightarrow>
     fs kernelCommandLine = files w kernelCommandLine \<or>
     (case files w kernelCommandLine of
        None \<Rightarrow> False
      | Some data \<Rightarrow> fs kernelCommandLine = Some (strings_TrimSpace data @ '' haos.wipe=1''))"

subsection \<open>Concrete inputs\<close>

text \<open>
  A helper on which the data volume is mounted at \<open>/mnt/data\<close> and the overlay volume
  is not mounted.
\<close>

definition helper_data_mounted :: UDisks2Helper where
  "helper_data_mounted =
     \<lparr>GetBusObjectFromLabel = (\<lambda>label. Inr (''/org/freedesktop/UDisks2/block_devices/'' @ label)),
      GetMountPointsString =
        (\<lambda>obj. if obj = ''/org/freedesktop/UDisks2/block_devices/hassos-data''
               then Inr [''/mnt/data''] else Inr []),
      FormatPartition = (\<lambda>obj fs label. None)\<rparr>"

text \<open>A helper on which both volumes resolve, are not mounted and format without error.\<close>

definition helper_unmounted :: UDisks2Helper where
  "helper_unmounted =
     \<lparr>GetBusObjectFromLabel = (\<lambda>label. Inr (''/org/freedesktop/UDisks2/block_devices/'' @ label)),
      GetMountPointsString = (\<lambda>obj. Inr []),
      FormatPartition = (\<lambda>obj fs label. None)\<rparr>"

text \<open>A helper that finds the data volume, unmounted, and no volume labelled as overlay.\<close>

definition helper_no_overlay :: UDisks2Helper where
  "helper_no_overlay =
     \<lparr>GetBusObjectFromLabel =
        (\<lambda>label. if label = ''hassos-data''
                 then Inr ''/org/freedesktop/UDisks2/block_devices/sda8''
                 else Inl (ErrorString ''No device with this label found'')),
      GetMountPointsString = (\<lambda>obj. Inr []),
      FormatPartition = (\<lambda>obj fs label. None)\<rparr>"

text \<open>
  An environment in which no system call fails, a write reaches the file after five
  bytes and then in full, nothing is installed under the odd program name, and the bus
  accepts every export.
\<close>

definition env_ok :: os_env where
  "env_ok = \<lparr>fault = (\<lambda>c. None), write_progress = [5], programs = Map.empty,
             Export_fault = (\<lambda>path iface. None)\<rparr>"

text \<open>An environment in which removing the authorized keys is not permitted.\<close>

definition env_remove_denied :: os_env where
  "env_remove_denied =
     env_ok\<lparr>fault := (\<lambda>c. if c = SysUnlink sshAuthKeyFileName then Some EACCES else None)\<rparr>"

text \<open>An environment in which no pipe can be opened.\<close>

definition env_no_pipe :: os_env where
  "env_no_pipe = env_ok\<lparr>fault := (\<lambda>c. if c = SysPipe then Some EMFILE else None)\<rparr>"

text \<open>
  A world whose kernel command line is \<open>console=ttyS0\<close>, with one authorized key and
  with the module listed in \<open>/proc/modules\<close>.
\<close>

definition world_boot :: world where
  "world_boot =
     \<lparr>files = [kernelCommandLine \<mapsto> ''console=ttyS0'',
               sshAuthKeyFileName \<mapsto> ''ssh-ed25519 AAAA root@host'' @ [CHR 0x0A],
               ''/proc/modules'' \<mapsto> ''vhci-hcd 61440 0 - Live 0x0000000000000000'' @ [CHR 0x0A]],
      observed = [], started = [], open_pipes = 0, exported = [],
      LoadUSBIP_Value = None, loadUSBIP = False\<rparr>"

text \<open>The same world without the file of authorized keys.\<close>

definition world_no_keys :: world where
  "world_no_keys = world_boot\<lparr>files := (files world_boot)(sshAuthKeyFileName := None)\<rparr>"

text \<open>An environment in which the write to the temporary file fails for lack of space.\<close>

definition env_disk_full :: os_env where
  "env_disk_full =
     env_ok\<lparr>fault := (\<lambda>c. if c = SysWrite tmpKernelCommandLine then Some ENOSPC else None)\<rparr>"

text \<open>A world whose kernel command line starts with a space.\<close>

definition world_indented :: world where
  "world_indented =
     world_boot\<lparr>files := (files world_boot)(kernelCommandLine \<mapsto> '' console=ttyS0'')\<rparr>"

section \<open>Properties of WipeDevice\<close>

lemma sublist_join_space: "m \<in> set ss \<Longrightarrow> sublist m (join_space ss)"
proof (induction ss rule: join_space.induct)
  case 1
  then show ?case by simp
next
  case (2 s)
  then show ?case by simp
next
  case (3 s t ss)
  show ?case
  proof (cases "m = s")
    case True
    then show ?thesis by simp
  next
    case False
    with 3 have "sublist m (join_space (t # ss))" by simp
    then obtain ps qs where "join_space (t # ss) = ps @ m @ qs"
      by (auto simp: sublist_def)
    then have "join_space (s # t # ss) = (s @ '' '' @ ps) @ m @ qs" by simp
    then show ?thesis unfolding sublist_def by blast
  qed
qed

lemma sublist_mounted_message_label: "sublist label (mounted_message label mps)"
proof -
  have "mounted_message label mps =
      (''Device with label '' @ [CHR 0x22]) @ label @
      ([CHR 0x22] @ '' is mounted at '' @ fmt_strings mps @ '', aborting.'')"
    by (simp add: mounted_message_def)
  then show ?thesis unfolding sublist_def by blast
qed

lemma sublist_mounted_message_mount:
  assumes "m \<in> set mps"
  shows "sublist m (mounted_message label mps)"
proof -
  from sublist_join_space [OF assms] obtain ps qs where j: "join_space mps = ps @ m @ qs"
    unfolding sublist_def by blast
  have "mounted_message label mps =
      (''Device with label '' @ [CHR 0x22] @ label @ [CHR 0x22] @ '' is mounted at '' @ ''['' @ ps)
       @ m @ (qs @ '']'' @ '', aborting.'')"
    by (simp add: mounted_message_def fmt_strings_def j)
  then show ?thesis unfolding sublist_def by blast
qed

text \<open>
  C1. Whenever the data volume (label \<open>hassos-data\<close>) resolves and reports a mount
  point, \<open>WipeDevice\<close> returns \<open>false\<close> with a failed error whose message contains the
  label and every mount point, and it issues no format call: the only helper calls are
  the lookup and the mount point query of the data volume. Nothing is assumed of the
  overlay volume, which is not even looked up.
\<close>

theorem WipeDevice_data_mounted:
  assumes "GetBusObjectFromLabel u labelDataFileSystem = Inr d"
    and "GetMountPointsString u d = Inr mps"
    and "mps \<noteq> []"
  shows "\<exists>msg. fst (WipeDevice u) =
              (False, Some (DBusError ''org.freedesktop.DBus.Error.Failed'' [msg]))
           \<and> sublist labelDataFileSystem msg
           \<and> (\<forall>m \<in> set mps. sublist m msg)
           \<and> format_calls (snd (WipeDevice u)) = []
           \<and> snd (WipeDevice u) =
               [CallGetBusObjectFromLabel labelDataFileSystem, CallGetMountPointsString d]"
proof -
  have g: "getAndCheckBusObjectFromLabel u labelDataFileSystem =
        (Inl (MakeFailedError (ErrorString (mounted_message labelDataFileSystem mps))),
         [CallGetBusObjectFromLabel labelDataFileSystem, CallGetMountPointsString d])"
    using assms by (simp add: getAndCheckBusObjectFromLabel_def)
  have w: "WipeDevice u =
        ((False, Some (DBusError ''org.freedesktop.DBus.Error.Failed''
                         [mounted_message labelDataFileSystem mps])),
         [CallGetBusObjectFromLabel labelDataFileSystem, CallGetMountPointsString d])"
    by (simp add: WipeDevice_def g MakeFailedError_def)
  show ?thesis
    using sublist_mounted_message_label sublist_mounted_message_mount
    by (simp add: w format_calls_def)
qed

theorem WipeDevice_data_mounted_witness:
  "\<exists>msg. fst (WipeDevice helper_data_mounted) =
            (False, Some (DBusError ''org.freedesktop.DBus.Error.Failed'' [msg]))
         \<and> sublist ''hassos-data'' msg \<and> sublist ''/mnt/data'' msg
         \<and> format_calls (snd (WipeDevice helper_data_mounted)) = []"
proof -
  obtain msg where
    "fst (WipeDevice helper_data_mounted) =
       (False, Some (DBusError ''org.freedesktop.DBus.Error.Failed'' [msg]))"
    "sublist labelDataFileSystem msg" "\<forall>m \<in> set [''/mnt/data'']. sublist m msg"
    "format_calls (snd (WipeDevice helper_data_mounted)) = []"
    using WipeDevice_data_mounted [of helper_data_mounted
      "''/org/freedesktop/UDisks2/block_devices/hassos-data''" "[''/mnt/data'']"]
    by (auto simp: helper_data_mounted_def labelDataFileSystem_def)
  then show ?thesis by (auto simp: labelDataFileSystem_def)
qed

lemma getAndCheck_unmounted:
  "GetBusObjectFromLabel u label = Inr b \<Longrightarrow> GetMountPointsString u b = Inr [] \<Longrightarrow>
   getAndCheckBusObjectFromLabel u label =
     (Inr b, [CallGetBusObjectFromLabel label, CallGetMountPointsString b])"
  by (simp add: getAndCheckBusObjectFromLabel_def)

lemma getAndCheck_lookup_fails:
  "GetBusObjectFromLabel u label = Inl e \<Longrightarrow>
   getAndCheckBusObjectFromLabel u label =
     (Inl (MakeFailedError e), [CallGetBusObjectFromLabel label])"
  by (simp add: getAndCheckBusObjectFromLabel_def)

lemma getAndCheck_no_format: "format_calls (snd (getAndCheckBusObjectFromLabel u label)) = []"
  by (simp add: getAndCheckBusObjectFromLabel_def format_calls_def
      split: sum.splits)

lemma getAndCheck_Inr:
  "getAndCheckBusObjectFromLabel u label = (Inr b, cs) \<Longrightarrow> GetBusObjectFromLabel u label = Inr b"
  by (auto simp: getAndCheckBusObjectFromLabel_def split: sum.splits if_splits)

lemma Error_MakeFailedError: "Error (MakeFailedError e) = Error e"
  by (simp add: MakeFailedError_def)

text \<open>
  C2. When both volumes resolve and report no mount point, \<open>WipeDevice\<close> checks both and
  only then formats: the data volume first, as \<open>ext4\<close> under its label, and, unless that
  failed, the overlay volume second, likewise. It returns \<open>true\<close> with no error exactly when
  both format calls succeed; a format call that fails ends the method with the error of
  that call, so the second is not attempted after a failure of the first.
\<close>

theorem WipeDevice_both_unmounted:
  assumes "GetBusObjectFromLabel u labelDataFileSystem = Inr d"
    and "GetMountPointsString u d = Inr []"
    and "GetBusObjectFromLabel u labelOverlayFileSystem = Inr ov"
    and "GetMountPointsString u ov = Inr []"
  shows "format_calls (snd (WipeDevice u)) =
           (if FormatPartition u d ''ext4'' labelDataFileSystem = None
            then [CallFormatPartition d ''ext4'' labelDataFileSystem,
                  CallFormatPartition ov ''ext4'' labelOverlayFileSystem]
            else [CallFormatPartition d ''ext4'' labelDataFileSystem])
         \<and> (fst (WipeDevice u) = (True, None) \<longleftrightarrow>
              FormatPartition u d ''ext4'' labelDataFileSystem = None \<and>
              FormatPartition u ov ''ext4'' labelOverlayFileSystem = None)
         \<and> (fst (fst (WipeDevice u)) \<longleftrightarrow>
              FormatPartition u d ''ext4'' labelDataFileSystem = None \<and>
              FormatPartition u ov ''ext4'' labelOverlayFileSystem = None)
         \<and> (\<forall>e. FormatPartition u d ''ext4'' labelDataFileSystem = Some e \<longrightarrow>
                fst (WipeDevice u) = (False, Some (MakeFailedError e)))
         \<and> (\<forall>e. FormatPartition u d ''ext4'' labelDataFileSystem = None \<and>
                FormatPartition u ov ''ext4'' labelOverlayFileSystem = Some e \<longrightarrow>
                fst (WipeDevice u) = (False, Some (MakeFailedError e)))
         \<and> snd (WipeDevice u) =
             [CallGetBusObjectFromLabel labelDataFileSystem, CallGetMountPointsString d,
              CallGetBusObjectFromLabel labelOverlayFileSystem, CallGetMountPointsString ov]
             @ format_calls (snd (WipeDevice u))"
proof -
  note g1 = getAndCheck_unmounted [OF assms(1,2)]
  note g2 = getAndCheck_unmounted [OF assms(3,4)]
  show ?thesis
  proof (cases "FormatPartition u d ''ext4'' labelDataFileSystem")
    case (Some e)
    then show ?thesis
      by (simp add: WipeDevice_def g1 g2 format_calls_def)
  next
    case None
    then show ?thesis
      by (cases "FormatPartition u ov ''ext4'' labelOverlayFileSystem")
         (simp_all add: WipeDevice_def g1 g2 format_calls_def)
  qed
qed

theorem WipeDevice_both_unmounted_witness:
  "fst (WipeDevice helper_unmounted) = (True, None) \<and>
   format_calls (snd (WipeDevice helper_unmounted)) =
     [CallFormatPartition ''/org/freedesktop/UDisks2/block_devices/hassos-data'' ''ext4'' ''hassos-data'',
      CallFormatPartition ''/org/freedesktop/UDisks2/block_devices/hassos-overlay'' ''ext4'' ''hassos-overlay'']"
  using WipeDevice_both_unmounted [of helper_unmounted
      "''/org/freedesktop/UDisks2/block_devices/hassos-data''"
      "''/org/freedesktop/UDisks2/block_devices/hassos-overlay''"]
  by (simp add: helper_unmounted_def labelDataFileSystem_def labelOverlayFileSystem_def)

text \<open>
  C6. When the lookup of the data label fails, \<open>WipeDevice\<close> returns \<open>false\<close> with the
  failed error carrying the message of the lookup error, after that one call. The same
  holds of the overlay label whenever its lookup is made. And whichever of the two labels
  fails to resolve, the method fails and issues no format call.
\<close>

theorem WipeDevice_resolution_fails:
  "(\<forall>e. GetBusObjectFromLabel u labelDataFileSystem = Inl e \<longrightarrow>
        WipeDevice u =
          ((False, Some (DBusError ''org.freedesktop.DBus.Error.Failed'' [Error e])),
           [CallGetBusObjectFromLabel labelDataFileSystem]))
   \<and> (\<forall>e. CallGetBusObjectFromLabel labelOverlayFileSystem \<in> set (snd (WipeDevice u)) \<and>
          GetBusObjectFromLabel u labelOverlayFileSystem = Inl e \<longrightarrow>
        fst (WipeDevice u) =
          (False, Some (DBusError ''org.freedesktop.DBus.Error.Failed'' [Error e])))
   \<and> (\<forall>e label. label \<in> {labelDataFileSystem, labelOverlayFileSystem} \<and>
          GetBusObjectFromLabel u label = Inl e \<longrightarrow>
        \<not> fst (fst (WipeDevice u)) \<and> snd (fst (WipeDevice u)) \<noteq> None \<and>
        format_calls (snd (WipeDevice u)) = [])"
proof (intro conjI allI impI)
  fix e
  assume "GetBusObjectFromLabel u labelDataFileSystem = Inl e"
  then show "WipeDevice u =
      ((False, Some (DBusError ''org.freedesktop.DBus.Error.Failed'' [Error e])),
       [CallGetBusObjectFromLabel labelDataFileSystem])"
    by (simp add: WipeDevice_def getAndCheck_lookup_fails MakeFailedError_def)
next
  fix e
  assume a: "CallGetBusObjectFromLabel labelOverlayFileSystem \<in> set (snd (WipeDevice u)) \<and>
          GetBusObjectFromLabel u labelOverlayFileSystem = Inl e"
  obtain r cs1 where g1: "getAndCheckBusObjectFromLabel u labelDataFileSystem = (r, cs1)"
    by (cases "getAndCheckBusObjectFromLabel u labelDataFileSystem")
  have n: "CallGetBusObjectFromLabel labelOverlayFileSystem \<notin> set cs1"
    using g1
    by (auto simp: getAndCheckBusObjectFromLabel_def labelDataFileSystem_def
        labelOverlayFileSystem_def split: sum.splits if_splits)
  show "fst (WipeDevice u) =
      (False, Some (DBusError ''org.freedesktop.DBus.Error.Failed'' [Error e]))"
  proof (cases r)
    case (Inl err)
    with g1 have "snd (WipeDevice u) = cs1" by (simp add: WipeDevice_def)
    with a n show ?thesis by simp
  next
    case (Inr d)
    with g1 a show ?thesis
      by (simp add: WipeDevice_def getAndCheck_lookup_fails MakeFailedError_def)
  qed
next
  fix e label
  assume a: "label \<in> {labelDataFileSystem, labelOverlayFileSystem} \<and>
          GetBusObjectFromLabel u label = Inl e"
  obtain r cs1 where g1: "getAndCheckBusObjectFromLabel u labelDataFileSystem = (r, cs1)"
    by (cases "getAndCheckBusObjectFromLabel u labelDataFileSystem")
  obtain r2 cs2 where g2: "getAndCheckBusObjectFromLabel u labelOverlayFileSystem = (r2, cs2)"
    by (cases "getAndCheckBusObjectFromLabel u labelOverlayFileSystem")
  have f1: "format_calls cs1 = []" using getAndCheck_no_format [of u labelDataFileSystem] g1 by simp
  have f2: "format_calls cs2 = []" using getAndCheck_no_format [of u labelOverlayFileSystem] g2 by simp
  have "(\<exists>err. r = Inl err) \<or> (\<exists>d err. r = Inr d \<and> r2 = Inl err)"
  proof (cases r)
    case (Inl err)
    then show ?thesis by simp
  next
    case (Inr d)
    with g1 have "GetBusObjectFromLabel u labelDataFileSystem = Inr d"
      by (simp add: getAndCheck_Inr)
    with a have "GetBusObjectFromLabel u labelOverlayFileSystem = Inl e" by auto
    with g2 have "r2 = Inl (MakeFailedError e)" by (simp add: getAndCheck_lookup_fails)
    with Inr show ?thesis by simp
  qed
  then have "\<not> fst (fst (WipeDevice u)) \<and> snd (fst (WipeDevice u)) \<noteq> None \<and>
        format_calls (snd (WipeDevice u)) = []"
    using g1 g2 f1 f2 by (auto simp: WipeDevice_def format_calls_def)
  then show "\<not> fst (fst (WipeDevice u))" "snd (fst (WipeDevice u)) \<noteq> None"
    "format_calls (snd (WipeDevice u)) = []" by simp_all
qed

theorem WipeDevice_resolution_fails_witness:
  "GetBusObjectFromLabel helper_no_overlay labelOverlayFileSystem =
     Inl (ErrorString ''No device with this label found'')
   \<and> CallGetBusObjectFromLabel labelOverlayFileSystem \<in> set (snd (WipeDevice helper_no_overlay))
   \<and> fst (WipeDevice helper_no_overlay) =
       (False, Some (DBusError ''org.freedesktop.DBus.Error.Failed''
                       [''No device with this label found'']))
   \<and> format_calls (snd (WipeDevice helper_no_overlay)) = []"
proof -
  have l: "GetBusObjectFromLabel helper_no_overlay labelOverlayFileSystem =
     Inl (ErrorString ''No device with this label found'')"
    by (simp add: helper_no_overlay_def labelOverlayFileSystem_def)
  have c: "CallGetBusObjectFromLabel labelOverlayFileSystem \<in> set (snd (WipeDevice helper_no_overlay))"
    by (simp add: WipeDevice_def getAndCheckBusObjectFromLabel_def helper_no_overlay_def
        labelOverlayFileSystem_def labelDataFileSystem_def)
  note t = WipeDevice_resolution_fails [of helper_no_overlay]
  note t2 = t [THEN conjunct2, THEN conjunct1, rule_format,
      where e = "ErrorString ''No device with this label found''"]
  note t3 = t [THEN conjunct2, THEN conjunct2, rule_format,
      where e = "ErrorString ''No device with this label found''"
        and label = labelOverlayFileSystem]
  have r: "fst (WipeDevice helper_no_overlay) =
       (False, Some (DBusError ''org.freedesktop.DBus.Error.Failed''
                       [''No device with this label found'']))"
    using t2 l c by simp
  have f: "format_calls (snd (WipeDevice helper_no_overlay)) = []"
    using t3 l by simp
  show ?thesis using l c r f by simp
qed

section \<open>Properties of ClearSSHAuthKeys\<close>

text \<open>
  C5. When the file of authorized keys does not exist (and the unlink call itself is not
  made to fail otherwise), \<open>os.Remove\<close> fails with \<open>ENOENT\<close>, \<open>os.IsNotExist\<close> holds of
  that error, and \<open>ClearSSHAuthKeys\<close> returns it as a failed error: the method does not
  succeed on a missing file. When the file exists and the unlink succeeds, the method
  returns \<open>nil\<close> and the file is gone.
\<close>

theorem ClearSSHAuthKeys_missing_file_fails:
  assumes "fault env (SysUnlink sshAuthKeyFileName) = None"
  shows "(files w sshAuthKeyFileName = None \<longrightarrow>
            ClearSSHAuthKeys env w =
              (Some (MakeFailedError (PathError ''remove'' sshAuthKeyFileName ENOENT)), w))
       \<and> (files w sshAuthKeyFileName \<noteq> None \<longrightarrow>
            fst (ClearSSHAuthKeys env w) = None \<and>
            files (snd (ClearSSHAuthKeys env w)) sshAuthKeyFileName = None)"
  using assms
  by (auto simp: ClearSSHAuthKeys_def os_Remove_def put_files_def)

theorem ClearSSHAuthKeys_missing_file_fails_witness:
  "files world_no_keys sshAuthKeyFileName = None \<and>
   ClearSSHAuthKeys env_ok world_no_keys =
     (Some (DBusError ''org.freedesktop.DBus.Error.Failed''
              [''remove /root/.ssh/authorized_keys: no such file or directory'']),
      world_no_keys)"
proof -
  have f: "fault env_ok (SysUnlink sshAuthKeyFileName) = None"
    by (simp add: env_ok_def)
  have n: "files world_no_keys sshAuthKeyFileName = None"
    by (simp add: world_no_keys_def)
  from ClearSSHAuthKeys_missing_file_fails [OF f, of world_no_keys] n
  have "ClearSSHAuthKeys env_ok world_no_keys =
      (Some (MakeFailedError (PathError ''remove'' sshAuthKeyFileName ENOENT)), world_no_keys)"
    by simp
  then show ?thesis
    using n by (simp add: MakeFailedError_def sshAuthKeyFileName_def)
qed

text \<open>
  C10. Whenever \<open>os.Remove\<close> fails with an error of which \<open>os.IsNotExist\<close> does not
  hold, \<open>ClearSSHAuthKeys\<close> returns \<open>nil\<close>: the error of the removal does not reach the
  caller, and the world is as \<open>os.Remove\<close> left it.
\<close>

theorem ClearSSHAuthKeys_hides_other_errors:
  assumes "os_Remove env sshAuthKeyFileName w = (Some err, w1)"
    and "\<not> os_IsNotExist err"
  shows "ClearSSHAuthKeys env w = (None, w1)"
  using assms by (simp add: ClearSSHAuthKeys_def)

theorem ClearSSHAuthKeys_hides_other_errors_witness:
  "os_Remove env_remove_denied sshAuthKeyFileName world_boot =
     (Some (PathError ''remove'' sshAuthKeyFileName EACCES), world_boot)
   \<and> \<not> os_IsNotExist (PathError ''remove'' sshAuthKeyFileName EACCES)
   \<and> ClearSSHAuthKeys env_remove_denied world_boot = (None, world_boot)
   \<and> files world_boot sshAuthKeyFileName \<noteq> None"
proof -
  have r: "os_Remove env_remove_denied sshAuthKeyFileName world_boot =
     (Some (PathError ''remove'' sshAuthKeyFileName EACCES), world_boot)"
    by (simp add: os_Remove_def env_remove_denied_def env_ok_def)
  have n: "\<not> os_IsNotExist (PathError ''remove'' sshAuthKeyFileName EACCES)"
    by simp
  have k: "files world_boot sshAuthKeyFileName \<noteq> None"
    by (simp add: world_boot_def)
  show ?thesis
    using ClearSSHAuthKeys_hides_other_errors [OF r n] r n k by simp
qed

section \<open>Properties of the kernel driver property\<close>

lemma Cmd_StdinPipe_world:
  "snd (snd (Cmd_StdinPipe env c w)) = w \<or>
   snd (snd (Cmd_StdinPipe env c w)) = w\<lparr>open_pipes := open_pipes w + 1\<rparr>"
  by (simp add: Cmd_StdinPipe_def split: option.splits)

lemma LoadKernelDriver_world:
  "snd (LoadKernelDriver env v w) = w\<lparr>loadUSBIP := v\<rparr> \<or>
   snd (LoadKernelDriver env v w) = w\<lparr>loadUSBIP := v, open_pipes := open_pipes w + 1\<rparr>"
  by (cases v; cases "fault env SysPipe")
     (simp_all add: LoadKernelDriver_def Cmd_StdinPipe_def exec_Command_def
        MakeFailedError_of_def Let_def)

text \<open>
  C3. \<open>LoadKernelDriver\<close> starts no process, whatever the value written: the list of
  started processes is the same after the call as before it. For the value \<open>true\<close> the
  variable \<open>loadUSBIP\<close> is \<open>true\<close> afterwards, and where the pipe can be opened the
  callback accepts the write; the command \<open>/sbin/modprobe vhci-hcd\<close> was built and
  never run.
\<close>

theorem LoadKernelDriver_starts_no_process:
  "started (snd (LoadKernelDriver env v w)) = started w
   \<and> loadUSBIP (snd (LoadKernelDriver env True w))
   \<and> (fault env SysPipe = None \<longrightarrow> fst (LoadKernelDriver env True w) = Returns None)"
proof -
  have "started (snd (LoadKernelDriver env v w)) = started w"
    using LoadKernelDriver_world [of env v w] by auto
  moreover have "loadUSBIP (snd (LoadKernelDriver env True w))"
    using LoadKernelDriver_world [of env True w] by auto
  moreover have "fault env SysPipe = None \<longrightarrow> fst (LoadKernelDriver env True w) = Returns None"
    by (simp add: LoadKernelDriver_def Cmd_StdinPipe_def exec_Command_def Let_def)
  ultimately show ?thesis by simp
qed

theorem LoadKernelDriver_starts_no_process_witness:
  "fault env_ok SysPipe = None
   \<and> fst (LoadKernelDriver env_ok True world_boot) = Returns None
   \<and> loadUSBIP (snd (LoadKernelDriver env_ok True world_boot))
   \<and> started (snd (LoadKernelDriver env_ok True world_boot)) = []"
proof -
  have f: "fault env_ok SysPipe = None" by (simp add: env_ok_def)
  have s: "started world_boot = []" by (simp add: world_boot_def)
  show ?thesis
    using LoadKernelDriver_starts_no_process [of env_ok True world_boot] f s by simp
qed

text \<open>
  C9. \<open>LoadKernelDriver\<close> stores the value written in \<open>loadUSBIP\<close> before it builds
  the command, and nothing takes the assignment back. But it never returns an error:
  when the pipe cannot be opened, the \<open>nil\<close> variable \<open>err\<close> is handed to
  \<open>dbus.MakeFailedError\<close> in place of \<open>cerror\<close>, and the call panics, with
  \<open>loadUSBIP\<close> already holding the value written.
\<close>

theorem LoadKernelDriver_setup_failure_panics:
  "loadUSBIP (snd (LoadKernelDriver env v w)) = v
   \<and> (\<forall>e. fst (LoadKernelDriver env v w) \<noteq> Returns (Some e))
   \<and> (fault env SysPipe \<noteq> None \<longrightarrow>
        LoadKernelDriver env v w = (Panics, w\<lparr>loadUSBIP := v\<rparr>))"
proof (intro conjI allI impI)
  show "loadUSBIP (snd (LoadKernelDriver env v w)) = v"
    using LoadKernelDriver_world [of env v w] by auto
next
  fix e
  show "fst (LoadKernelDriver env v w) \<noteq> Returns (Some e)"
    by (cases v; cases "fault env SysPipe")
       (simp_all add: LoadKernelDriver_def Cmd_StdinPipe_def exec_Command_def
          MakeFailedError_of_def Let_def)
next
  assume "fault env SysPipe \<noteq> None"
  then obtain x where "fault env SysPipe = Some x" by auto
  then show "LoadKernelDriver env v w = (Panics, w\<lparr>loadUSBIP := v\<rparr>)"
    by (cases v)
       (simp_all add: LoadKernelDriver_def Cmd_StdinPipe_def exec_Command_def
          MakeFailedError_of_def Let_def)
qed

theorem LoadKernelDriver_setup_failure_panics_witness:
  "fault env_no_pipe SysPipe = Some EMFILE
   \<and> \<not> loadUSBIP world_boot
   \<and> LoadKernelDriver env_no_pipe True world_boot =
       (Panics, world_boot\<lparr>loadUSBIP := True\<rparr>)"
proof -
  have f: "fault env_no_pipe SysPipe = Some EMFILE" by (simp add: env_no_pipe_def)
  have s: "\<not> loadUSBIP world_boot" by (simp add: world_boot_def)
  show ?thesis
    using LoadKernelDriver_setup_failure_panics [of env_no_pipe True world_boot] f s by simp
qed

lemma InitializeDBus_loadUSBIP:
  "loadUSBIP (snd (InitializeDBus env w)) = fst (getDriverStatus env w)"
  by (simp add: InitializeDBus_def Let_def split: prod.splits option.splits)

text \<open>
  C8. \<open>InitializeDBus\<close> sets \<open>loadUSBIP\<close> to the result of \<open>getDriverStatus\<close>, and that
  is \<open>false\<close> whenever no program is installed under the name
  \<open>cat /proc/modules | grep vhci-hcd\<close>, whatever the kernel's module table holds: the
  pipeline is handed to \<open>exec.Command\<close> as the name of one program, no shell reads it,
  and \<open>/proc/modules\<close> is never opened.
\<close>

theorem InitializeDBus_ignores_module_table:
  assumes "programs env ''cat /proc/modules | grep vhci-hcd'' = None"
  shows "loadUSBIP (snd (InitializeDBus env w)) = False
       \<and> files (snd (InitializeDBus env w)) = files w
       \<and> started (snd (InitializeDBus env w)) = started w"
proof -
  have g: "getDriverStatus env w = (False, w)"
    using assms
    by (simp add: getDriverStatus_def Cmd_Output_def exec_Command_def Let_def
        split: option.splits)
  show ?thesis
    by (simp add: InitializeDBus_def g Let_def split: option.splits)
qed

theorem InitializeDBus_ignores_module_table_witness:
  "files world_boot ''/proc/modules'' =
     Some (''vhci-hcd 61440 0 - Live 0x0000000000000000'' @ [CHR 0x0A])
   \<and> programs env_ok ''cat /proc/modules | grep vhci-hcd'' = None
   \<and> loadUSBIP (snd (InitializeDBus env_ok world_boot)) = False"
proof -
  have p: "programs env_ok ''cat /proc/modules | grep vhci-hcd'' = None"
    by (simp add: env_ok_def)
  have m: "files world_boot ''/proc/modules'' =
     Some (''vhci-hcd 61440 0 - Live 0x0000000000000000'' @ [CHR 0x0A])"
    by (simp add: world_boot_def kernelCommandLine_def sshAuthKeyFileName_def)
  show ?thesis
    using InitializeDBus_ignores_module_table [OF p, of world_boot] p m by simp
qed

section \<open>Properties of ScheduleWipeDevice\<close>

lemma find_prefix_Some:
  assumes "find (\<lambda>r. prefix r s) rs = Some r"
  shows "r \<in> set rs \<and> prefix r s"
  using assms by (auto simp: find_Some_iff)

lemma drop_rune:
  assumes "prefix r (c # cs)" and "r \<noteq> []"
  shows "c # cs = r @ drop (length r - 1) cs"
proof -
  from assms(1) obtain t where t: "c # cs = r @ t" by (auto simp: prefix_def)
  with assms(2) obtain r' where r': "r = c # r'" by (cases r) auto
  with t have "cs = r' @ t" by simp
  then have "drop (length r - 1) cs = t" using r' by simp
  with t show ?thesis by simp
qed

lemma TrimLeft_runes_split:
  "[] \<notin> set rs \<Longrightarrow> \<exists>ws. set ws \<subseteq> set rs \<and> s = concat ws @ TrimLeft_runes rs s"
proof (induction rs s rule: TrimLeft_runes.induct)
  case (1 rs)
  have "set [] \<subseteq> set rs \<and> [] = concat [] @ TrimLeft_runes rs []" by simp
  then show ?case by blast
next
  case (2 rs c cs)
  show ?case
  proof (cases "find (\<lambda>r. prefix r (c # cs)) rs")
    case None
    then have "set [] \<subseteq> set rs \<and> c # cs = concat [] @ TrimLeft_runes rs (c # cs)" by simp
    then show ?thesis by blast
  next
    case (Some r)
    from find_prefix_Some [OF Some] have r: "r \<in> set rs" "prefix r (c # cs)" by simp_all
    from r(1) 2(2) have ne: "r \<noteq> []" by auto
    from 2(1) [OF Some 2(2)] obtain ws where ws: "set ws \<subseteq> set rs"
      "drop (length r - 1) cs = concat ws @ TrimLeft_runes rs (drop (length r - 1) cs)"
      by blast
    have "c # cs = r @ drop (length r - 1) cs" by (rule drop_rune [OF r(2) ne])
    also have "\<dots> = concat (r # ws) @ TrimLeft_runes rs (drop (length r - 1) cs)"
      using ws(2) by simp
    also have "TrimLeft_runes rs (drop (length r - 1) cs) = TrimLeft_runes rs (c # cs)"
      using Some by simp
    finally have "c # cs = concat (r # ws) @ TrimLeft_runes rs (c # cs)" .
    moreover have "set (r # ws) \<subseteq> set rs" using r(1) ws(1) by simp
    ultimately show ?thesis by blast
  qed
qed

lemma TrimLeft_runes_no_leading:
  "[] \<notin> set rs \<Longrightarrow> r \<in> set rs \<Longrightarrow> \<not> prefix r (TrimLeft_runes rs s)"
proof (induction rs s rule: TrimLeft_runes.induct)
  case (1 rs)
  then show ?case by auto
next
  case (2 rs c cs)
  show ?case
  proof (cases "find (\<lambda>r. prefix r (c # cs)) rs")
    case None
    then have "TrimLeft_runes rs (c # cs) = c # cs" by simp
    moreover from None 2(3) have "\<not> prefix r (c # cs)" by (auto simp: find_None_iff)
    ultimately show ?thesis by simp
  next
    case (Some r')
    with 2 show ?thesis by simp
  qed
qed

lemma TrimRight_runes_split:
  assumes "[] \<notin> set rs"
  shows "\<exists>ws. set ws \<subseteq> set rs \<and> s = TrimRight_runes rs s @ concat ws"
proof -
  from assms have "[] \<notin> set (map rev rs)" by auto
  from TrimLeft_runes_split [OF this, of "rev s"] obtain ws where
    ws: "set ws \<subseteq> set (map rev rs)"
      "rev s = concat ws @ TrimLeft_runes (map rev rs) (rev s)"
    by blast
  from ws(2) have "rev (rev s) = rev (concat ws @ TrimLeft_runes (map rev rs) (rev s))"
    by simp
  then have "s = TrimRight_runes rs s @ concat (map rev (rev ws))"
    by (simp add: TrimRight_runes_def rev_concat)
  moreover have "set (map rev (rev ws)) \<subseteq> set rs"
    using ws(1) by auto
  ultimately show ?thesis by blast
qed

lemma TrimRight_runes_no_trailing:
  assumes "[] \<notin> set rs" and "r \<in> set rs"
  shows "\<not> suffix r (TrimRight_runes rs s)"
proof -
  from assms have "[] \<notin> set (map rev rs)" "rev r \<in> set (map rev rs)" by auto
  from TrimLeft_runes_no_leading [OF this, of "rev s"]
  show ?thesis by (simp add: TrimRight_runes_def suffix_to_prefix)
qed

lemma space_runes_nonempty: "[] \<notin> set space_runes"
  by (simp add: space_runes_def)

lemma strings_TrimSpace_split:
  "\<exists>l r. set l \<subseteq> set space_runes \<and> set r \<subseteq> set space_runes \<and>
         s = concat l @ strings_TrimSpace s @ concat r"
proof -
  from TrimLeft_runes_split [OF space_runes_nonempty, of s] obtain l where
    l: "set l \<subseteq> set space_runes" "s = concat l @ TrimLeft_runes space_runes s"
    by blast
  from TrimRight_runes_split [OF space_runes_nonempty, of "TrimLeft_runes space_runes s"]
  obtain r where r: "set r \<subseteq> set space_runes"
    "TrimLeft_runes space_runes s = strings_TrimSpace s @ concat r"
    unfolding strings_TrimSpace_def by blast
  from l(2) r(2) have "s = concat l @ strings_TrimSpace s @ concat r" by simp
  with l(1) r(1) show ?thesis by blast
qed

lemma strings_TrimSpace_trimmed:
  assumes "r \<in> set space_runes"
  shows "\<not> prefix r (strings_TrimSpace s) \<and> \<not> suffix r (strings_TrimSpace s)"
proof -
  from TrimRight_runes_split [OF space_runes_nonempty, of "TrimLeft_runes space_runes s"]
  have p: "prefix (strings_TrimSpace s) (TrimLeft_runes space_runes s)"
    unfolding strings_TrimSpace_def by (metis prefixI)
  have "\<not> prefix r (strings_TrimSpace s)"
  proof
    assume "prefix r (strings_TrimSpace s)"
    with p have "prefix r (TrimLeft_runes space_runes s)" by (metis prefix_order.trans)
    with TrimLeft_runes_no_leading [OF space_runes_nonempty assms] show False by blast
  qed
  moreover have "\<not> suffix r (strings_TrimSpace s)"
    unfolding strings_TrimSpace_def
    by (rule TrimRight_runes_no_trailing [OF space_runes_nonempty assms])
  ultimately show ?thesis by simp
qed

lemma files_put_files: "files (put_files fs w) = fs"
  by (simp add: put_files_def)

lemma observed_put_files: "observed (put_files fs w) = observed w @ [fs]"
  by (simp add: put_files_def)

lemma observedI:
  assumes "observed w' = observed w @ obs" and "\<forall>fs \<in> set obs. fs p = v"
  shows "\<exists>obs. observed w' = observed w @ obs \<and> (\<forall>fs \<in> set obs. fs p = v)"
  using assms by blast

lemma write_steps_other:
  assumes "p \<noteq> name"
  shows "files (write_steps name data ns w) p = files w p \<and>
         (\<exists>obs. observed (write_steps name data ns w) = observed w @ obs \<and>
                (\<forall>fs \<in> set obs. fs p = files w p))"
proof (induction ns arbitrary: w)
  case Nil
  then show ?case by simp
next
  case (Cons n ns)
  let ?w1 = "put_files ((files w)(name \<mapsto> take n data)) w"
  from Cons [of ?w1] obtain obs where
    f: "files (write_steps name data ns ?w1) p = files ?w1 p" and
    o: "observed (write_steps name data ns ?w1) = observed ?w1 @ obs"
       "\<forall>fs \<in> set obs. fs p = files ?w1 p"
    by blast
  have w1: "files ?w1 p = files w p" using assms by (simp add: files_put_files)
  have a: "observed (write_steps name data (n # ns) w) =
        observed w @ ((files w)(name \<mapsto> take n data) # obs)"
    using o(1) by (simp add: observed_put_files)
  have b: "\<forall>fs \<in> set ((files w)(name \<mapsto> take n data) # obs). fs p = files w p"
    using o(2) w1 assms by simp
  have c: "files (write_steps name data (n # ns) w) p = files w p"
    using f w1 by simp
  show ?case using c observedI [OF a b] by simp
qed

lemma ioutil_WriteFile_other:
  assumes "p \<noteq> name"
  shows "files (snd (ioutil_WriteFile env name data w)) p = files w p \<and>
         (\<exists>obs. observed (snd (ioutil_WriteFile env name data w)) = observed w @ obs \<and>
                (\<forall>fs \<in> set obs. fs p = files w p))"
proof (cases "fault env (SysOpen name)")
  case (Some e)
  then show ?thesis by (simp add: ioutil_WriteFile_def)
next
  case None
  let ?w1 = "put_files ((files w)(name \<mapsto> [])) w"
  let ?w2 = "write_steps name data (write_progress env) ?w1"
  let ?w3 = "put_files ((files ?w2)(name \<mapsto> data)) ?w2"
  from write_steps_other [OF assms, where data = data and ns = "write_progress env" and w = ?w1]
  obtain obs where
    f2: "files ?w2 p = files ?w1 p" and
    o2: "observed ?w2 = observed ?w1 @ obs" "\<forall>fs \<in> set obs. fs p = files ?w1 p"
    by blast
  have f1: "files ?w1 p = files w p" using assms by (simp add: files_put_files)
  have a2: "files ?w2 p = files w p \<and>
      (\<exists>obs. observed ?w2 = observed w @ obs \<and> (\<forall>fs \<in> set obs. fs p = files w p))"
  proof -
    have a: "observed ?w2 = observed w @ ((files w)(name \<mapsto> []) # obs)"
      using o2(1) by (simp add: observed_put_files)
    have b: "\<forall>fs \<in> set ((files w)(name \<mapsto> []) # obs). fs p = files w p"
      using o2(2) f1 assms by simp
    show ?thesis using f2 f1 observedI [OF a b] by simp
  qed
  have a3: "files ?w3 p = files w p \<and>
      (\<exists>obs. observed ?w3 = observed w @ obs \<and> (\<forall>fs \<in> set obs. fs p = files w p))"
  proof -
    from a2 obtain obs2 where o: "observed ?w2 = observed w @ obs2"
      "\<forall>fs \<in> set obs2. fs p = files w p" and f: "files ?w2 p = files w p" by blast
    have a: "observed ?w3 = observed w @ (obs2 @ [(files ?w2)(name \<mapsto> data)])"
      using o(1) by (simp add: observed_put_files)
    have b: "\<forall>fs \<in> set (obs2 @ [(files ?w2)(name \<mapsto> data)]). fs p = files w p"
      using o(2) f assms by simp
    have c: "files ?w3 p = files w p" using f assms by (simp add: files_put_files)
    show ?thesis using c observedI [OF a b] by simp
  qed
  have "snd (ioutil_WriteFile env name data w) = ?w2 \<or>
        snd (ioutil_WriteFile env name data w) = ?w3"
    using None by (simp add: ioutil_WriteFile_def Let_def split: option.splits)
  then show ?thesis
  proof
    assume "snd (ioutil_WriteFile env name data w) = ?w2"
    with a2 show ?thesis by simp
  next
    assume "snd (ioutil_WriteFile env name data w) = ?w3"
    with a3 show ?thesis by simp
  qed
qed

lemma ioutil_WriteFile_success:
  assumes "fst (ioutil_WriteFile env name data w) = None"
  shows "files (snd (ioutil_WriteFile env name data w)) name = Some data"
  using assms
  by (auto simp: ioutil_WriteFile_def Let_def files_put_files split: option.splits)

lemma kernelCommandLine_not_tmp: "kernelCommandLine \<noteq> tmpKernelCommandLine"
  by (simp add: kernelCommandLine_def tmpKernelCommandLine_def)

lemma ioutil_ReadFile_Inr:
  "ioutil_ReadFile env name w = Inr data \<Longrightarrow> files w name = Some data"
  by (simp add: ioutil_ReadFile_def split: option.splits)

lemma ScheduleWipeDevice_read_fails:
  "ioutil_ReadFile env kernelCommandLine w = Inl e \<Longrightarrow>
   ScheduleWipeDevice env w = ((False, Some (MakeFailedError e)), w)"
  by (simp add: ScheduleWipeDevice_def)

lemma ScheduleWipeDevice_write_fails:
  assumes "ioutil_ReadFile env kernelCommandLine w = Inr data"
    and "ioutil_WriteFile env tmpKernelCommandLine
           (strings_TrimSpace data @ '' haos.wipe=1'') w = (Some e, w1)"
  shows "ScheduleWipeDevice env w = ((False, Some (MakeFailedError e)), w1)"
  using assms by (simp add: ScheduleWipeDevice_def)

lemma ScheduleWipeDevice_rename:
  assumes "ioutil_ReadFile env kernelCommandLine w = Inr data"
    and "ioutil_WriteFile env tmpKernelCommandLine
           (strings_TrimSpace data @ '' haos.wipe=1'') w = (None, w1)"
  shows "(\<exists>e. ScheduleWipeDevice env w = ((False, Some (MakeFailedError e)), w1)) \<or>
         ScheduleWipeDevice env w =
           ((True, None),
            put_files ((files w1)(tmpKernelCommandLine := None,
                         kernelCommandLine \<mapsto> strings_TrimSpace data @ '' haos.wipe=1'')) w1)"
proof -
  define new where "new = strings_TrimSpace data @ '' haos.wipe=1''"
  from ioutil_WriteFile_success [of env tmpKernelCommandLine new w] assms(2)
  have t: "files w1 tmpKernelCommandLine = Some new"
    by (simp add: new_def)
  have s: "ScheduleWipeDevice env w =
      (case os_Rename env tmpKernelCommandLine kernelCommandLine w1 of
         (Some err, w2) \<Rightarrow> ((False, Some (MakeFailedError err)), w2)
       | (None, w2) \<Rightarrow> ((True, None), w2))"
    using assms by (simp add: ScheduleWipeDevice_def)
  show ?thesis
  proof (cases "fault env (SysRename tmpKernelCommandLine kernelCommandLine)")
    case (Some x)
    then have "ScheduleWipeDevice env w =
        ((False, Some (MakeFailedError
           (LinkError ''rename'' tmpKernelCommandLine kernelCommandLine x))), w1)"
      by (simp add: s os_Rename_def)
    then show ?thesis by (intro disjI1 exI)
  next
    case None
    then have "ScheduleWipeDevice env w =
        ((True, None),
         put_files ((files w1)(tmpKernelCommandLine := None, kernelCommandLine \<mapsto> new)) w1)"
      using t by (simp add: s os_Rename_def)
    then show ?thesis by (simp add: new_def)
  qed
qed

lemma observed_ext:
  assumes "observed w' = observed w @ obs" and "\<forall>fs \<in> set obs. Q fs"
  shows "\<exists>obs. observed w' = observed w @ obs \<and> (\<forall>fs \<in> set obs. Q fs)"
  using assms by blast

lemma ScheduleWipeDevice_observed:
  "\<exists>obs. observed (snd (ScheduleWipeDevice env w)) = observed w @ obs \<and>
         (\<forall>fs \<in> set obs. old_or_new w fs)"
proof (cases "ioutil_ReadFile env kernelCommandLine w")
  case (Inl e)
  then have "observed (snd (ScheduleWipeDevice env w)) = observed w @ []"
    by (simp add: ScheduleWipeDevice_read_fails)
  moreover have "\<forall>fs \<in> set []. old_or_new w fs" by simp
  ultimately show ?thesis by (rule observed_ext)
next
  case (Inr data)
  define new where "new = strings_TrimSpace data @ '' haos.wipe=1''"
  obtain r w1 where wf: "ioutil_WriteFile env tmpKernelCommandLine new w = (r, w1)"
    by (cases "ioutil_WriteFile env tmpKernelCommandLine new w")
  have w1: "snd (ioutil_WriteFile env tmpKernelCommandLine new w) = w1"
    using wf by simp
  from ioutil_WriteFile_other [OF kernelCommandLine_not_tmp, of env new w]
  obtain obs where o: "observed w1 = observed w @ obs"
    "\<forall>fs \<in> set obs. fs kernelCommandLine = files w kernelCommandLine"
    unfolding w1 by (elim conjE exE)
  from o(2) have oo: "\<forall>fs \<in> set obs. old_or_new w fs"
    by (simp add: old_or_new_def)
  have old: ?thesis if "snd (ScheduleWipeDevice env w) = w1"
    using o(1) oo unfolding that by (rule observed_ext)
  show ?thesis
  proof (cases r)
    case (Some e)
    with Inr wf have "snd (ScheduleWipeDevice env w) = w1"
      by (simp add: ScheduleWipeDevice_write_fails new_def)
    then show ?thesis by (rule old)
  next
    case None
    from ScheduleWipeDevice_rename [OF Inr wf [unfolded None new_def]]
    show ?thesis
    proof
      assume "\<exists>e. ScheduleWipeDevice env w = ((False, Some (MakeFailedError e)), w1)"
      then obtain e where "ScheduleWipeDevice env w = ((False, Some (MakeFailedError e)), w1)" ..
      then have "snd (ScheduleWipeDevice env w) = w1" by simp
      then show ?thesis by (rule old)
    next
      define fs' where
        "fs' = (files w1)(tmpKernelCommandLine := None, kernelCommandLine \<mapsto> new)"
      assume "ScheduleWipeDevice env w =
        ((True, None),
         put_files ((files w1)(tmpKernelCommandLine := None,
            kernelCommandLine \<mapsto> strings_TrimSpace data @ '' haos.wipe=1'')) w1)"
      then have a: "observed (snd (ScheduleWipeDevice env w)) = observed w @ (obs @ [fs'])"
        using o(1) by (simp add: observed_put_files fs'_def new_def)
      have n: "fs' kernelCommandLine = Some new" by (simp add: fs'_def)
      have d: "files w kernelCommandLine = Some data"
        by (rule ioutil_ReadFile_Inr [OF Inr])
      have "old_or_new w fs'"
        using n d by (simp add: new_def old_or_new_def)
      with oo have "\<forall>fs \<in> set (obs @ [fs']). old_or_new w fs"
        by simp
      with a show ?thesis by (rule observed_ext)
    qed
  qed
qed

lemma ScheduleWipeDevice_write_fails_fst:
  assumes "ioutil_ReadFile env kernelCommandLine w = Inr data"
    and "fst (ioutil_WriteFile env tmpKernelCommandLine
           (strings_TrimSpace data @ '' haos.wipe=1'') w) = Some e"
  shows "fst (ScheduleWipeDevice env w) = (False, Some (MakeFailedError e)) \<and>
         files (snd (ScheduleWipeDevice env w)) kernelCommandLine = files w kernelCommandLine"
proof -
  define new where "new = strings_TrimSpace data @ '' haos.wipe=1''"
  obtain w1 where wf: "ioutil_WriteFile env tmpKernelCommandLine new w = (Some e, w1)"
    using assms(2) unfolding new_def
    by (cases "ioutil_WriteFile env tmpKernelCommandLine
           (strings_TrimSpace data @ '' haos.wipe=1'') w") simp
  then have w1: "snd (ioutil_WriteFile env tmpKernelCommandLine new w) = w1" by simp
  from ioutil_WriteFile_other [OF kernelCommandLine_not_tmp, of env new w]
  have "files w1 kernelCommandLine = files w kernelCommandLine"
    unfolding w1 by (elim conjE)
  moreover have "ScheduleWipeDevice env w = ((False, Some (MakeFailedError e)), w1)"
    by (rule ScheduleWipeDevice_write_fails [OF assms(1) wf [unfolded new_def]])
  ultimately show ?thesis by simp
qed

lemma ScheduleWipeDevice_final:
  "old_or_new w (files (snd (ScheduleWipeDevice env w)))"
proof (cases "ioutil_ReadFile env kernelCommandLine w")
  case (Inl e)
  then show ?thesis by (simp add: ScheduleWipeDevice_read_fails old_or_new_def)
next
  case (Inr data)
  define new where "new = strings_TrimSpace data @ '' haos.wipe=1''"
  obtain r w1 where wf: "ioutil_WriteFile env tmpKernelCommandLine new w = (r, w1)"
    by (cases "ioutil_WriteFile env tmpKernelCommandLine new w")
  then have w1: "snd (ioutil_WriteFile env tmpKernelCommandLine new w) = w1" by simp
  from ioutil_WriteFile_other [OF kernelCommandLine_not_tmp, of env new w]
  have k: "files w1 kernelCommandLine = files w kernelCommandLine"
    unfolding w1 by (elim conjE)
  have old: ?thesis if "snd (ScheduleWipeDevice env w) = w1"
    using k unfolding that by (simp add: old_or_new_def)
  show ?thesis
  proof (cases r)
    case (Some e)
    with Inr wf have "snd (ScheduleWipeDevice env w) = w1"
      by (simp add: ScheduleWipeDevice_write_fails new_def)
    then show ?thesis by (rule old)
  next
    case None
    from ScheduleWipeDevice_rename [OF Inr wf [unfolded None new_def]]
    show ?thesis
    proof
      assume "\<exists>e. ScheduleWipeDevice env w = ((False, Some (MakeFailedError e)), w1)"
      then obtain e where "ScheduleWipeDevice env w = ((False, Some (MakeFailedError e)), w1)" ..
      then have "snd (ScheduleWipeDevice env w) = w1" by simp
      then show ?thesis by (rule old)
    next
      assume a: "ScheduleWipeDevice env w =
        ((True, None),
         put_files ((files w1)(tmpKernelCommandLine := None,
            kernelCommandLine \<mapsto> strings_TrimSpace data @ '' haos.wipe=1'')) w1)"
      have d: "files w kernelCommandLine = Some data"
        by (rule ioutil_ReadFile_Inr [OF Inr])
      show ?thesis
        using d by (simp add: a files_put_files old_or_new_def)
    qed
  qed
qed

lemma ScheduleWipeDevice_success_files:
  assumes "fst (ScheduleWipeDevice env w) = (True, None)"
    and "files w kernelCommandLine = Some C"
  shows "files (snd (ScheduleWipeDevice env w)) =
           (files w)(tmpKernelCommandLine := None,
                     kernelCommandLine \<mapsto> strings_TrimSpace C @ '' haos.wipe=1'')"
proof (cases "ioutil_ReadFile env kernelCommandLine w")
  case (Inl e)
  with assms(1) show ?thesis by (simp add: ScheduleWipeDevice_read_fails)
next
  case (Inr data)
  from ioutil_ReadFile_Inr [OF Inr] assms(2) have dc: "data = C" by simp
  define new where "new = strings_TrimSpace data @ '' haos.wipe=1''"
  obtain r w1 where wf: "ioutil_WriteFile env tmpKernelCommandLine new w = (r, w1)"
    by (cases "ioutil_WriteFile env tmpKernelCommandLine new w")
  then have w1: "snd (ioutil_WriteFile env tmpKernelCommandLine new w) = w1" by simp
  have other: "files w1 p = files w p" if "p \<noteq> tmpKernelCommandLine" for p
    using ioutil_WriteFile_other [OF that, of env new w] unfolding w1 by (elim conjE)
  show ?thesis
  proof (cases r)
    case (Some e)
    with Inr wf have "fst (ScheduleWipeDevice env w) = (False, Some (MakeFailedError e))"
      by (simp add: ScheduleWipeDevice_write_fails new_def)
    with assms(1) show ?thesis by simp
  next
    case None
    from ScheduleWipeDevice_rename [OF Inr wf [unfolded None new_def]]
    show ?thesis
    proof
      assume "\<exists>e. ScheduleWipeDevice env w = ((False, Some (MakeFailedError e)), w1)"
      then obtain e where "ScheduleWipeDevice env w = ((False, Some (MakeFailedError e)), w1)" ..
      with assms(1) show ?thesis by simp
    next
      assume a: "ScheduleWipeDevice env w =
        ((True, None),
         put_files ((files w1)(tmpKernelCommandLine := None,
            kernelCommandLine \<mapsto> strings_TrimSpace data @ '' haos.wipe=1'')) w1)"
      have "(files w1)(tmpKernelCommandLine := None, kernelCommandLine \<mapsto> new) =
            (files w)(tmpKernelCommandLine := None, kernelCommandLine \<mapsto> new)"
        using other by (intro ext) simp
      then show ?thesis
        by (simp add: a files_put_files new_def dc)
    qed
  qed
qed

lemma ScheduleWipeDevice_succeeds:
  assumes "\<And>c. fault env c = None" and "files w kernelCommandLine = Some C"
  shows "fst (ScheduleWipeDevice env w) = (True, None)"
proof -
  have r: "ioutil_ReadFile env kernelCommandLine w = Inr C"
    using assms by (simp add: ioutil_ReadFile_def)
  define new where "new = strings_TrimSpace C @ '' haos.wipe=1''"
  have f: "fst (ioutil_WriteFile env tmpKernelCommandLine new w) = None"
    using assms(1) by (simp add: ioutil_WriteFile_def Let_def)
  then obtain w1 where wf: "ioutil_WriteFile env tmpKernelCommandLine new w = (None, w1)"
    by (cases "ioutil_WriteFile env tmpKernelCommandLine new w") simp
  from ScheduleWipeDevice_rename [OF r wf [unfolded new_def]]
  show ?thesis
  proof
    assume "\<exists>e. ScheduleWipeDevice env w = ((False, Some (MakeFailedError e)), w1)"
    then obtain e where e: "ScheduleWipeDevice env w = ((False, Some (MakeFailedError e)), w1)" ..
    from ioutil_WriteFile_success [OF f] wf
    have t: "files w1 tmpKernelCommandLine = Some new" by simp
    have "ScheduleWipeDevice env w =
        ((True, None),
         put_files ((files w1)(tmpKernelCommandLine := None, kernelCommandLine \<mapsto> new)) w1)"
      using r wf t assms(1)
      by (simp add: ScheduleWipeDevice_def os_Rename_def new_def)
    with e show ?thesis by simp
  next
    assume "ScheduleWipeDevice env w =
        ((True, None),
         put_files ((files w1)(tmpKernelCommandLine := None,
            kernelCommandLine \<mapsto> strings_TrimSpace C @ '' haos.wipe=1'')) w1)"
    then show ?thesis by simp
  qed
qed

lemma TrimSpace_console: "strings_TrimSpace ''console=ttyS0'' = ''console=ttyS0''"
  by (simp add: strings_TrimSpace_def TrimRight_runes_def space_runes_def)

lemma TrimSpace_indented: "strings_TrimSpace '' console=ttyS0'' = ''console=ttyS0''"
  by (simp add: strings_TrimSpace_def TrimRight_runes_def space_runes_def)

lemma TrimRight_indented: "TrimRight_runes space_runes '' console=ttyS0'' = '' console=ttyS0''"
  by (simp add: TrimRight_runes_def space_runes_def)

text \<open>
  C4. \<open>ScheduleWipeDevice\<close> writes to the temporary file only, which lies in the
  directory of the kernel command line, and replaces the command line by one rename.
  When the read fails, the method returns \<open>false\<close> with the read error and the world is
  untouched. When the write of the temporary file fails, it returns \<open>false\<close> with the
  write error and the command line has its old content. In every file system that could
  be seen during the call, and in the one the call leaves, the command line has either
  its old content or the complete new content.
\<close>

theorem ScheduleWipeDevice_atomic_replace:
  "path_Dir tmpKernelCommandLine = path_Dir kernelCommandLine
   \<and> tmpKernelCommandLine \<noteq> kernelCommandLine
   \<and> (\<forall>e. ioutil_ReadFile env kernelCommandLine w = Inl e \<longrightarrow>
          ScheduleWipeDevice env w = ((False, Some (MakeFailedError e)), w))
   \<and> (\<forall>data e. ioutil_ReadFile env kernelCommandLine w = Inr data \<and>
          fst (ioutil_WriteFile env tmpKernelCommandLine
                 (strings_TrimSpace data @ '' haos.wipe=1'') w) = Some e \<longrightarrow>
          fst (ScheduleWipeDevice env w) = (False, Some (MakeFailedError e)) \<and>
          files (snd (ScheduleWipeDevice env w)) kernelCommandLine = files w kernelCommandLine)
   \<and> (\<exists>obs. observed (snd (ScheduleWipeDevice env w)) = observed w @ obs \<and>
          (\<forall>fs \<in> set obs. old_or_new w fs))
   \<and> old_or_new w (files (snd (ScheduleWipeDevice env w)))"
proof (intro conjI allI impI)
  show "path_Dir tmpKernelCommandLine = path_Dir kernelCommandLine"
    by (simp add: path_Dir_def tmpKernelCommandLine_def kernelCommandLine_def)
  show "tmpKernelCommandLine \<noteq> kernelCommandLine"
    using kernelCommandLine_not_tmp by simp
  show "\<exists>obs. observed (snd (ScheduleWipeDevice env w)) = observed w @ obs \<and>
          (\<forall>fs \<in> set obs. old_or_new w fs)"
    by (rule ScheduleWipeDevice_observed)
  show "old_or_new w (files (snd (ScheduleWipeDevice env w)))"
    by (rule ScheduleWipeDevice_final)
next
  fix e
  assume "ioutil_ReadFile env kernelCommandLine w = Inl e"
  then show "ScheduleWipeDevice env w = ((False, Some (MakeFailedError e)), w)"
    by (rule ScheduleWipeDevice_read_fails)
next
  fix data e
  assume a: "ioutil_ReadFile env kernelCommandLine w = Inr data \<and>
          fst (ioutil_WriteFile env tmpKernelCommandLine
                 (strings_TrimSpace data @ '' haos.wipe=1'') w) = Some e"
  from a have r: "ioutil_ReadFile env kernelCommandLine w = Inr data" ..
  from a have f: "fst (ioutil_WriteFile env tmpKernelCommandLine
                 (strings_TrimSpace data @ '' haos.wipe=1'') w) = Some e" ..
  from ScheduleWipeDevice_write_fails_fst [OF r f]
  show "fst (ScheduleWipeDevice env w) = (False, Some (MakeFailedError e))"
    and "files (snd (ScheduleWipeDevice env w)) kernelCommandLine = files w kernelCommandLine"
    by simp_all
qed

theorem ScheduleWipeDevice_atomic_replace_witness:
  "ioutil_ReadFile env_disk_full kernelCommandLine world_boot = Inr ''console=ttyS0''
   \<and> fst (ioutil_WriteFile env_disk_full tmpKernelCommandLine
           (strings_TrimSpace ''console=ttyS0'' @ '' haos.wipe=1'') world_boot) =
       Some (PathError ''write'' tmpKernelCommandLine ENOSPC)
   \<and> fst (ScheduleWipeDevice env_disk_full world_boot) =
       (False, Some (DBusError ''org.freedesktop.DBus.Error.Failed''
                       [''write /mnt/boot/.tmp.cmdline.txt: no space left on device'']))
   \<and> files (snd (ScheduleWipeDevice env_disk_full world_boot)) kernelCommandLine =
       Some ''console=ttyS0''"
proof -
  have k: "files world_boot kernelCommandLine = Some ''console=ttyS0''"
    by (simp add: world_boot_def kernelCommandLine_def sshAuthKeyFileName_def)
  have r: "ioutil_ReadFile env_disk_full kernelCommandLine world_boot = Inr ''console=ttyS0''"
    by (simp add: ioutil_ReadFile_def env_disk_full_def env_ok_def k)
  have f: "fst (ioutil_WriteFile env_disk_full tmpKernelCommandLine
           (strings_TrimSpace ''console=ttyS0'' @ '' haos.wipe=1'') world_boot) =
       Some (PathError ''write'' tmpKernelCommandLine ENOSPC)"
    by (simp add: ioutil_WriteFile_def env_disk_full_def env_ok_def Let_def)
  note t = ScheduleWipeDevice_atomic_replace [of env_disk_full world_boot]
  note t4 = t [THEN conjunct2, THEN conjunct2, THEN conjunct2, THEN conjunct1, rule_format,
      where data = "''console=ttyS0''" and e = "PathError ''write'' tmpKernelCommandLine ENOSPC"]
  from t4 r f have
    "fst (ScheduleWipeDevice env_disk_full world_boot) =
       (False, Some (MakeFailedError (PathError ''write'' tmpKernelCommandLine ENOSPC)))"
    "files (snd (ScheduleWipeDevice env_disk_full world_boot)) kernelCommandLine =
       files world_boot kernelCommandLine"
    by simp_all
  then show ?thesis
    using r f k by (simp add: MakeFailedError_def tmpKernelCommandLine_def)
qed

text \<open>
  C7, as stated: the new content is the old content without its trailing white space,
  followed by the option. It fails on a command line that starts with a space: the call
  succeeds, and the leading space is gone from the new content.
\<close>

theorem ScheduleWipeDevice_trailing_only_counterexample:
  "fst (ScheduleWipeDevice env_ok world_indented) = (True, None)
   \<and> files world_indented kernelCommandLine = Some '' console=ttyS0''
   \<and> files (snd (ScheduleWipeDevice env_ok world_indented)) kernelCommandLine =
       Some ''console=ttyS0 haos.wipe=1''
   \<and> files (snd (ScheduleWipeDevice env_ok world_indented)) kernelCommandLine \<noteq>
       Some (TrimRight_runes space_runes '' console=ttyS0'' @ '' haos.wipe=1'')"
proof -
  have k: "files world_indented kernelCommandLine = Some '' console=ttyS0''"
    by (simp add: world_indented_def)
  have f: "\<And>c. fault env_ok c = None" by (simp add: env_ok_def)
  have s: "fst (ScheduleWipeDevice env_ok world_indented) = (True, None)"
    by (rule ScheduleWipeDevice_succeeds [OF f k])
  have c: "files (snd (ScheduleWipeDevice env_ok world_indented)) kernelCommandLine =
       Some ''console=ttyS0 haos.wipe=1''"
    by (simp add: ScheduleWipeDevice_success_files [OF s k] TrimSpace_indented)
  show ?thesis
    using k s c by (simp add: TrimRight_indented)
qed

text \<open>
  C7, amended. After a call of \<open>ScheduleWipeDevice\<close> that succeeds on a command line
  with content \<open>C\<close>, the content is \<open>strings.TrimSpace(C)\<close> followed by one space and
  \<open>haos.wipe=1\<close>, and the temporary file is gone. \<open>strings.TrimSpace(C)\<close> is \<open>C\<close>
  without white space at either end: \<open>C\<close> is white space, then the trimmed text, then
  white space, and the trimmed text neither starts nor ends with white space. So nothing
  between the first and the last token of \<open>C\<close> changes.
\<close>

theorem ScheduleWipeDevice_content:
  assumes "fst (ScheduleWipeDevice env w) = (True, None)"
    and "files w kernelCommandLine = Some C"
  shows "files (snd (ScheduleWipeDevice env w)) kernelCommandLine =
           Some (strings_TrimSpace C @ '' haos.wipe=1'')
       \<and> files (snd (ScheduleWipeDevice env w)) tmpKernelCommandLine = None
       \<and> (\<exists>l r. set l \<subseteq> set space_runes \<and> set r \<subseteq> set space_runes \<and>
                 C = concat l @ strings_TrimSpace C @ concat r)
       \<and> (\<forall>r \<in> set space_runes.
             \<not> prefix r (strings_TrimSpace C) \<and> \<not> suffix r (strings_TrimSpace C))"
proof -
  note f = ScheduleWipeDevice_success_files [OF assms]
  have "files (snd (ScheduleWipeDevice env w)) kernelCommandLine =
           Some (strings_TrimSpace C @ '' haos.wipe=1'')"
    by (simp add: f)
  moreover have "files (snd (ScheduleWipeDevice env w)) tmpKernelCommandLine = None"
    using kernelCommandLine_not_tmp by (simp add: f)
  moreover note strings_TrimSpace_split [of C]
  moreover have "\<forall>r \<in> set space_runes.
             \<not> prefix r (strings_TrimSpace C) \<and> \<not> suffix r (strings_TrimSpace C)"
    using strings_TrimSpace_trimmed by blast
  ultimately show ?thesis by (intro conjI)
qed

theorem ScheduleWipeDevice_content_witness:
  "fst (ScheduleWipeDevice env_ok world_boot) = (True, None)
   \<and> files world_boot kernelCommandLine = Some ''console=ttyS0''
   \<and> files (snd (ScheduleWipeDevice env_ok world_boot)) kernelCommandLine =
       Some ''console=ttyS0 haos.wipe=1''"
proof -
  have k: "files world_boot kernelCommandLine = Some ''console=ttyS0''"
    by (simp add: world_boot_def kernelCommandLine_def sshAuthKeyFileName_def)
  have f: "\<And>c. fault env_ok c = None" by (simp add: env_ok_def)
  have s: "fst (ScheduleWipeDevice env_ok world_boot) = (True, None)"
    by (rule ScheduleWipeDevice_succeeds [OF f k])
  from ScheduleWipeDevice_content [OF s k]
  have "files (snd (ScheduleWipeDevice env_ok world_boot)) kernelCommandLine =
           Some (strings_TrimSpace ''console=ttyS0'' @ '' haos.wipe=1'')"
    by (elim conjE)
  then show ?thesis
    using s k by (simp add: TrimSpace_console)
qed

end
